theory Spec2Isabelle
  imports Main "HOL-Library.AList" "HOL-Library.Sublist"
begin

section \<open>The ontology service: data model\<close>

text \<open>
  The service (\<^verbatim>\<open>ontology_service.py\<close>) keeps a process-wide dictionary
  \<^verbatim>\<open>loaded_ontologies\<close> from ontology names to in-memory ontology models, fills it
  once at startup from the \<^verbatim>\<open>.owl\<close> files of a directory, runs an external reasoner,
  and then answers ancestor queries over HTTP.

  A class entity of a loaded model is a Python object with an identifier (\<^verbatim>\<open>iri\<close>), a
  local name (\<^verbatim>\<open>name\<close>), an optional attribute \<^verbatim>\<open>label\<close> holding its declared labels
  (\<open>None\<close> when \<^verbatim>\<open>hasattr(entity, 'label')\<close> is false), and references to its direct
  superclasses (\<^verbatim>\<open>is_a\<close>). The references make an entity a finitely branching tree of
  its superclasses.
\<close>

datatype entity =
  Entity (iri: string) (name: string) (label: "string list option") (is_a: "entity list")

text \<open>
  An ontology model has a name and the entities the library's search ranges over; the
  order of the list is the order in which the search enumerates them.
\<close>

record ontology =
  onto_name :: string
  entities :: "entity list"

datatype py_error =
    ValueError string string
  | NotADirectoryError string
  | FileNotFoundError string
  | FileExistsError string
  | PermissionError string
  | Exception string

datatype log_level = DEBUG | INFO | WARNING | ERROR

text \<open>The calls of \<^verbatim>\<open>logger\<close> in the source, one constructor per format string.\<close>

datatype log_msg =
    DirNotFound string
  | PleaseAdd string
  | Scanning string
  | Loading string string
  | Loaded string
  | LoadFailed string string
  | ReasoningFailed string
  | ContinueAsserted
  | Fetching string string
  | Unexpected py_error

type_synonym log_record = "log_level \<times> log_msg"

text \<open>
  The mutable state of the process: the dictionary \<^verbatim>\<open>loaded_ontologies\<close> (an association
  list in insertion order, as a Python \<^verbatim>\<open>dict\<close> keeps it), the records handed to
  \<^verbatim>\<open>logger\<close>, the lines written by \<^verbatim>\<open>print\<close>, and a counter of the calls of
  \<^verbatim>\<open>sync_reasoner\<close>. The counter is not a variable of the source; it records how often
  the reasoner has been started.
\<close>

record app_state =
  loaded_ontologies :: "(string \<times> ontology) list"
  log :: "log_record list"
  stdout :: "string list"
  reasoner_calls :: nat

definition initial_state :: app_state where
  "initial_state = \<lparr>loaded_ontologies = [], log = [], stdout = [], reasoner_calls = 0\<rparr>"

definition ONTOLOGY_DIR :: string where
  "ONTOLOGY_DIR = ''ontologies''"

definition logger :: "log_level \<Rightarrow> log_msg \<Rightarrow> app_state \<Rightarrow> app_state" where
  "logger lvl msg s = s\<lparr>log := log s @ [(lvl, msg)]\<rparr>"

definition print :: "string \<Rightarrow> app_state \<Rightarrow> app_state" where
  "print line s = s\<lparr>stdout := stdout s @ [line]\<rparr>"

section \<open>The file system and the loader\<close>

text \<open>
  A directory entry is a file name together with what
  \<^verbatim>\<open>get_ontology("file://" + path).load()\<close> does on it: it raises an exception with a
  message (\<open>Inl\<close>), or it returns a model (\<open>Inr\<close>).

  The file system says what is at a path, paths being compared as they are written:
  nothing, a regular file, a directory with its entries in the order \<^verbatim>\<open>os.listdir\<close>
  returns them, a symbolic link whose target is missing, or a place with nothing at it
  where the process has no permission to make a directory.
\<close>

type_synonym dirent = "string \<times> (string + ontology)"

datatype node = File | Dir "dirent list" | Dangling_link | Refused

type_synonym filesystem = "string \<rightharpoonup> node"

text \<open>
  \<^verbatim>\<open>os.path.exists\<close> follows symbolic links, so it sees regular files and directories
  only. \<^verbatim>\<open>os.listdir\<close> lists a directory and raises on anything else.
\<close>

definition os_path_exists :: "filesystem \<Rightarrow> string \<Rightarrow> bool" where
  "os_path_exists fs p =
     (case fs p of
        Some File \<Rightarrow> True
      | Some (Dir ents) \<Rightarrow> True
      | _ \<Rightarrow> False)"

definition os_listdir :: "filesystem \<Rightarrow> string \<Rightarrow> py_error + dirent list" where
  "os_listdir fs p =
     (case fs p of
        Some (Dir ents) \<Rightarrow> Inr ents
      | Some File \<Rightarrow> Inl (NotADirectoryError p)
      | _ \<Rightarrow> Inl (FileNotFoundError p))"

text \<open>
  The directories above a path: its proper prefixes that end before a separator (before
  the first one of a run of separators), the shortest first. The root of an absolute
  path is not among them.
\<close>

fun parents_from :: "string \<Rightarrow> string \<Rightarrow> string list" where
  "parents_from acc [] = []"
| "parents_from acc (c # cs) =
     (if c = CHR ''/'' \<and> acc \<noteq> [] \<and> last acc \<noteq> CHR ''/'' then [acc] else [])
       @ parents_from (acc @ [c]) cs"

definition parents :: "string \<Rightarrow> string list" where
  "parents p = parents_from [] p"

text \<open>
  \<^verbatim>\<open>os.makedirs(path)\<close> with its default \<^verbatim>\<open>exist_ok=False\<close>. It makes the missing
  directories above the path, then the directory itself. The empty path raises
  \<^verbatim>\<open>FileNotFoundError\<close>. Below a regular file the next \<^verbatim>\<open>mkdir\<close> raises
  \<^verbatim>\<open>NotADirectoryError\<close>, below a dangling link \<^verbatim>\<open>FileNotFoundError\<close>. Where something
  is at the path itself already (a dangling link too) it raises \<^verbatim>\<open>FileExistsError\<close>,
  and where a directory may not be made \<^verbatim>\<open>PermissionError\<close>.
  \<^verbatim>\<open>mkdir_chain\<close> walks the directories above the path and then the path.
\<close>

fun mkdir_chain :: "filesystem \<Rightarrow> string list \<Rightarrow> py_error + filesystem" where
  "mkdir_chain fs [] = Inr fs"
| "mkdir_chain fs [p] =
     (case fs p of
        None \<Rightarrow> Inr (fs(p \<mapsto> Dir []))
      | Some Refused \<Rightarrow> Inl (PermissionError p)
      | Some _ \<Rightarrow> Inl (FileExistsError p))"
| "mkdir_chain fs (q # r # rs) =
     (case fs q of
        None \<Rightarrow> mkdir_chain (fs(q \<mapsto> Dir [])) (r # rs)
      | Some (Dir ents) \<Rightarrow> mkdir_chain fs (r # rs)
      | Some File \<Rightarrow> Inl (NotADirectoryError r)
      | Some Dangling_link \<Rightarrow> Inl (FileNotFoundError r)
      | Some Refused \<Rightarrow> Inl (PermissionError q))"

definition os_makedirs :: "filesystem \<Rightarrow> string \<Rightarrow> py_error + filesystem" where
  "os_makedirs fs p =
     (if p = [] then Inl (FileNotFoundError p) else mkdir_chain fs (parents p @ [p]))"

definition endswith :: "string \<Rightarrow> string \<Rightarrow> bool" where
  "endswith s suf = suffix suf s"

text \<open>
  \<^verbatim>\<open>os.path.splitext\<close> on a name without a path separator (the names of
  \<^verbatim>\<open>os.listdir\<close> have none): the extension starts at the last dot, unless every
  character before that dot is a dot too, in which case the extension is empty.
\<close>

fun rfind :: "string \<Rightarrow> char \<Rightarrow> nat option" where
  "rfind [] c = None"
| "rfind (x # xs) c =
     (case rfind xs c of
        Some i \<Rightarrow> Some (Suc i)
      | None \<Rightarrow> if x = c then Some 0 else None)"

definition splitext :: "string \<Rightarrow> string \<times> string" where
  "splitext p =
     (case rfind p (CHR ''.'') of
        None \<Rightarrow> (p, [])
      | Some dotIndex \<Rightarrow>
          if list_ex (\<lambda>c. c \<noteq> CHR ''.'') (take dotIndex p)
          then (take dotIndex p, drop dotIndex p)
          else (p, []))"

text \<open>The body of the \<^verbatim>\<open>for filename in os.listdir(directory)\<close> loop.\<close>

definition load_entry :: "dirent \<Rightarrow> app_state \<Rightarrow> app_state" where
  "load_entry ent s =
     (let filename = fst ent in
      if endswith filename ''.owl'' then
        (let ontology_name = fst (splitext filename);
             s1 = logger INFO (Loading ontology_name filename) s
         in case snd ent of
              Inr ontology \<Rightarrow>
                logger INFO (Loaded ontology_name)
                  (s1\<lparr>loaded_ontologies :=
                        AList.update ontology_name ontology (loaded_ontologies s1)\<rparr>)
            | Inl e \<Rightarrow> logger ERROR (LoadFailed filename e) s1)
      else s)"

fun load_entries :: "dirent list \<Rightarrow> app_state \<Rightarrow> app_state" where
  "load_entries [] s = s"
| "load_entries (ent # ents) s = load_entries ents (load_entry ent s)"

text \<open>
  \<^verbatim>\<open>load_ontologies_from_directory\<close>. Nothing in the function catches what
  \<^verbatim>\<open>os.makedirs\<close> or \<^verbatim>\<open>os.listdir\<close> raise; the warning is logged before
  \<^verbatim>\<open>os.makedirs\<close> runs and the hint after it.
\<close>

definition load_ontologies_from_directory ::
  "string \<Rightarrow> filesystem \<times> app_state \<Rightarrow> py_error + (filesystem \<times> app_state)" where
  "load_ontologies_from_directory directory w =
     (let fs = fst w; s = snd w in
      if \<not> os_path_exists fs directory then
        (let s1 = logger WARNING (DirNotFound directory) s in
         case os_makedirs fs directory of
           Inl e \<Rightarrow> Inl e
         | Inr fs1 \<Rightarrow> Inr (fs1, logger INFO (PleaseAdd directory) s1))
      else
        (let s1 = logger INFO (Scanning directory) s in
         case os_listdir fs directory of
           Inl e \<Rightarrow> Inl e
         | Inr ents \<Rightarrow> Inr (fs, load_entries ents s1)))"

section \<open>Startup\<close>

text \<open>
  \<^verbatim>\<open>sync_reasoner()\<close> is an external procedure over all loaded models: it fails with a
  message, or it yields the change it makes to each model in place.
\<close>

type_synonym reasoner = "ontology list \<Rightarrow> string + (ontology \<Rightarrow> ontology)"

text \<open>The part of \<^verbatim>\<open>lifespan\<close> before \<^verbatim>\<open>yield\<close>.\<close>

definition run_reasoner :: "reasoner \<Rightarrow> app_state \<Rightarrow> app_state" where
  "run_reasoner sync_reasoner s =
     (if loaded_ontologies s \<noteq> [] then
        (let s1 = print ''--- Running Reasoner (HermiT) on all loaded ontologies ---'' s;
             s2 = s1\<lparr>reasoner_calls := Suc (reasoner_calls s1)\<rparr>
         in case sync_reasoner (map snd (loaded_ontologies s2)) of
              Inr f \<Rightarrow>
                print ''--- Reasoning completed successfully. ---''
                  (s2\<lparr>loaded_ontologies := map (\<lambda>(k, v). (k, f v)) (loaded_ontologies s2)\<rparr>)
            | Inl e \<Rightarrow>
                logger WARNING ContinueAsserted (logger ERROR (ReasoningFailed e) s2))
      else s)"

definition lifespan_startup ::
  "reasoner \<Rightarrow> filesystem \<times> app_state \<Rightarrow> py_error + (filesystem \<times> app_state)" where
  "lifespan_startup sync_reasoner w =
     (case load_ontologies_from_directory ONTOLOGY_DIR
             (fst w, print ''--- Starting up Ontology Service ---'' (snd w)) of
        Inl e \<Rightarrow> Inl e
      | Inr w1 \<Rightarrow> Inr (fst w1, run_reasoner sync_reasoner (snd w1)))"

section \<open>Queries\<close>

definition get_labels :: "entity \<Rightarrow> string list" where
  "get_labels entity =
     (case label entity of
        Some ls \<Rightarrow> if ls \<noteq> [] then ls else [name entity]
      | None \<Rightarrow> [name entity])"

text \<open>
  Modelled from the spec: the pattern search \<^verbatim>\<open>search_one(iri=...)\<close> of the ontology
  library is not part of the sources. The source hands it the pattern
  \<^verbatim>\<open>"*" + class_name\<close>, and Section 4.2 says what the search does with it: it matches
  any identifier whose trailing portion equals the class name, and it returns one
  matching entity, leaving open which. Here it returns the first match in the order of
  the list of entities, and a pattern without the leading star (the source builds none)
  stands for the whole identifier.
\<close>

definition iri_matches :: "string \<Rightarrow> string \<Rightarrow> bool" where
  "iri_matches pat s =
     (case pat of
        [] \<Rightarrow> s = []
      | c # rest \<Rightarrow> if c = CHR ''*'' then endswith s rest else s = pat)"

definition search_one :: "ontology \<Rightarrow> string \<Rightarrow> entity option" where
  "search_one ontology pat = find (\<lambda>e. iri_matches pat (iri e)) (entities ontology)"

text \<open>
  Modelled from the spec: the method \<^verbatim>\<open>ancestors()\<close> of the ontology library is not part
  of the sources. Section 3 and the glossary describe the ancestor set of a class as the
  transitive closure of its is-a relationships, including the class itself. The Python
  set is a list without duplicates, in some iteration order.
\<close>

fun ancestors :: "entity \<Rightarrow> entity list" where
  "ancestors (Entity i n l ps) = remdups (Entity i n l ps # concat (map ancestors ps))"

definition fetch_superclasses ::
  "ontology \<Rightarrow> string \<Rightarrow> app_state \<Rightarrow> (py_error + entity list) \<times> app_state" where
  "fetch_superclasses ontology class_name s =
     (let s1 = logger DEBUG (Fetching class_name (onto_name ontology)) s in
      case search_one ontology (CHR ''*'' # class_name) of
        None \<Rightarrow> (Inl (ValueError class_name (onto_name ontology)), s1)
      | Some cls \<Rightarrow> (Inr (ancestors cls), s1))"

datatype response =
    Superclasses "string list"
  | Available_ontologies "string list"
  | Message string
  | HTTPException nat

text \<open>The expression \<^verbatim>\<open>labels[0] if labels else cls.name\<close> of the route.\<close>

definition resolve_label :: "entity \<Rightarrow> string" where
  "resolve_label cls =
     (case get_labels cls of
        l # _ \<Rightarrow> l
      | [] \<Rightarrow> name cls)"

definition get_available_ontologies :: "app_state \<Rightarrow> response \<times> app_state" where
  "get_available_ontologies s =
     (if loaded_ontologies s = [] then (Message ONTOLOGY_DIR, s)
      else (Available_ontologies (map fst (loaded_ontologies s)), s))"

definition get_superclasses_route ::
  "string \<Rightarrow> string \<Rightarrow> app_state \<Rightarrow> response \<times> app_state" where
  "get_superclasses_route ontology_name class_name s =
     (case map_of (loaded_ontologies s) ontology_name of
        None \<Rightarrow> (HTTPException 404, s)
      | Some ontology \<Rightarrow>
          (case fetch_superclasses ontology class_name s of
             (Inr superclasses, s1) \<Rightarrow> (Superclasses (map resolve_label superclasses), s1)
           | (Inl (ValueError c n), s1) \<Rightarrow> (HTTPException 404, s1)
           | (Inl e, s1) \<Rightarrow> (HTTPException 500, logger ERROR (Unexpected e) s1)))"

text \<open>
  A query arriving after startup: a direct call of \<^verbatim>\<open>fetch_superclasses\<close> on a model,
  or one of the two HTTP query routes.
\<close>

datatype query =
    Fetch ontology string
  | Get_superclasses string string
  | Get_available

datatype answer = Fetched "py_error + entity list" | Replied response

fun run_query :: "query \<Rightarrow> app_state \<Rightarrow> answer \<times> app_state" where
  "run_query (Fetch ontology class_name) s =
     (case fetch_superclasses ontology class_name s of (r, s1) \<Rightarrow> (Fetched r, s1))"
| "run_query (Get_superclasses ontology_name class_name) s =
     (case get_superclasses_route ontology_name class_name s of (r, s1) \<Rightarrow> (Replied r, s1))"
| "run_query Get_available s =
     (case get_available_ontologies s of (r, s1) \<Rightarrow> (Replied r, s1))"

fun run_queries :: "query list \<Rightarrow> app_state \<Rightarrow> answer list \<times> app_state" where
  "run_queries [] s = ([], s)"
| "run_queries (q # qs) s =
     (case run_query q s of
        (a, s1) \<Rightarrow> (case run_queries qs s1 of (as, s2) \<Rightarrow> (a # as, s2)))"

section \<open>Notions used to state the properties\<close>

text \<open>
  The asserted ancestors of a class: what is reached from it by one or more
  \<^verbatim>\<open>is_a\<close> steps.
\<close>

inductive asserted_ancestor :: "entity \<Rightarrow> entity \<Rightarrow> bool" where
  parent: "p \<in> set (is_a c) \<Longrightarrow> asserted_ancestor c p"
| step: "p \<in> set (is_a c) \<Longrightarrow> asserted_ancestor p a \<Longrightarrow> asserted_ancestor c a"



definition derived_name :: "dirent \<Rightarrow> string" where
  "derived_name ent = fst (splitext (fst ent))"


section \<open>Sample data\<close>

definition animal :: entity where
  "animal = Entity ''http://example.org/animals#Animal_003'' ''Animal_003'' (Some []) []"

definition mammal :: entity where
  "mammal = Entity ''http://example.org/animals#Mammal'' ''Mammal'' (Some [''Mammal'']) [animal]"

definition dog :: entity where
  "dog = Entity ''http://example.org/animals#Dog'' ''Dog'' (Some [''Dog'', ''Canine'']) [mammal]"

definition animals :: ontology where
  "animals = \<lparr>onto_name = ''animals'', entities = [animal, mammal, dog]\<rparr>"


definition serving :: app_state where
  "serving = initial_state\<lparr>loaded_ontologies := [(''animals'', animals)]\<rparr>"

text \<open>
  Two directory listings: one with a file that loads, a file that does not and a file
  that is no ontology; and one with two hidden-style names.
\<close>

definition sample_dir :: "dirent list" where
  "sample_dir = [(''animals.owl'', Inr animals), (''broken.owl'', Inl ''parse error''),
                 (''README.md'', Inl ''not an ontology'')]"


definition sample_fs :: filesystem where
  "sample_fs = [ONTOLOGY_DIR \<mapsto> Dir sample_dir]"


text \<open>A file system in which \<^verbatim>\<open>data\<close> is a regular file.\<close>

definition data_file_fs :: filesystem where
  "data_file_fs = [''data'' \<mapsto> File]"

text \<open>A reasoner that adds a class to every model.\<close>

definition thing :: entity where
  "thing = Entity ''http://www.w3.org/2002/07/owl#Thing'' ''Thing'' (Some []) []"

definition adds_thing :: reasoner where
  "adds_thing models = Inr (\<lambda>m. m\<lparr>entities := entities m @ [thing]\<rparr>)"

text \<open>A reasoner that cannot start.\<close>

definition no_java :: reasoner where
  "no_java models = Inl ''java not found''"

section \<open>Label resolution\<close>

text \<open>
  Claim C7. Label resolution is a total function that yields one string for every entity:
  the first declared label when the entity has at least one, and the local name of the
  entity when it has none (an empty list of labels, or no label attribute at all).
\<close>

theorem label_resolution:
  "resolve_label (Entity i n (Some (l # ls)) ps) = l
   \<and> resolve_label (Entity i n (Some []) ps) = n
   \<and> resolve_label (Entity i n None ps) = n"
  by (simp add: get_labels_def resolve_label_def)

theorem label_resolution_witness:
  "resolve_label dog = ''Dog'' \<and> resolve_label animal = ''Animal_003''"
  using label_resolution [of "''http://example.org/animals#Dog''" "''Dog''" "''Dog''"
      "[''Canine'']" "[mammal]"]
    label_resolution [of "''http://example.org/animals#Animal_003''" "''Animal_003''" "''x''"
      "[]" "[]"]
  by (simp add: dog_def animal_def)

text \<open>
  Claim C10. For every entity \<^verbatim>\<open>get_labels\<close> returns a non-empty list, the declared
  labels when there are some and otherwise the one-element list of the local name; so
  the route always takes the first element of that list and never falls back to the
  name in its own conditional.
\<close>

theorem get_labels_nonempty:
  "get_labels e \<noteq> []
   \<and> get_labels e = (case label e of Some (l # ls) \<Rightarrow> l # ls | _ \<Rightarrow> [name e])
   \<and> resolve_label e = hd (get_labels e)"
  by (simp add: get_labels_def resolve_label_def split: option.split list.split)

section \<open>Searching for a class\<close>

lemma fetch_result:
  "fst (fetch_superclasses ontology class_name s) =
     (case search_one ontology (CHR ''*'' # class_name) of
        None \<Rightarrow> Inl (ValueError class_name (onto_name ontology))
      | Some cls \<Rightarrow> Inr (ancestors cls))"
  by (simp add: fetch_superclasses_def Let_def split: option.split)

lemma fetch_state:
  "snd (fetch_superclasses ontology class_name s) =
     logger DEBUG (Fetching class_name (onto_name ontology)) s"
  by (simp add: fetch_superclasses_def Let_def split: option.split)

text \<open>What the search of \<^verbatim>\<open>fetch_superclasses\<close> finds, in terms of the class name.\<close>

lemma search_suffix_None:
  "search_one ontology (CHR ''*'' # class_name) = None
     \<longleftrightarrow> (\<forall>e\<in>set (entities ontology). \<not> endswith (iri e) class_name)"
  by (auto simp: search_one_def find_None_iff iri_matches_def)

lemma search_suffix_Some:
  "search_one ontology (CHR ''*'' # class_name) = Some cls \<Longrightarrow>
   cls \<in> set (entities ontology) \<and> endswith (iri cls) class_name"
  by (auto simp: search_one_def find_Some_iff iri_matches_def)

text \<open>
  Claim C1. For every ontology and every class name, \<^verbatim>\<open>fetch_superclasses\<close> matches
  exactly the entities whose identifier ends with the class name: when the ontology has
  such an entity, the function returns the ancestors of one entity whose identifier ends
  with the class name, and when it has none, the function fails. So no entity whose
  identifier ends otherwise is ever selected, and one entity is selected however many
  match.
\<close>

theorem fetch_superclasses_suffix_matching:
  "((\<exists>e\<in>set (entities ontology). endswith (iri e) class_name) \<longrightarrow>
      (\<exists>cls\<in>set (entities ontology). endswith (iri cls) class_name
         \<and> fst (fetch_superclasses ontology class_name s) = Inr (ancestors cls)))
   \<and> ((\<forall>e\<in>set (entities ontology). \<not> endswith (iri e) class_name) \<longrightarrow>
        fst (fetch_superclasses ontology class_name s)
          = Inl (ValueError class_name (onto_name ontology)))"
proof (cases "search_one ontology (CHR ''*'' # class_name)")
  case None
  then have "\<forall>e\<in>set (entities ontology). \<not> endswith (iri e) class_name"
    by (simp add: search_suffix_None)
  with None show ?thesis by (simp add: fetch_result)
next
  case (Some cls)
  from search_suffix_Some [OF Some] Some show ?thesis
    by (auto simp: fetch_result)
qed

theorem fetch_superclasses_suffix_matching_witness:
  "endswith (iri dog) ''Dog'' \<and> \<not> endswith (iri animal) ''Dog''
   \<and> \<not> endswith (iri mammal) ''Dog''
   \<and> fst (fetch_superclasses animals ''Dog'' serving) = Inr (ancestors dog)
   \<and> \<not> endswith (iri animal) ''Cat'' \<and> \<not> endswith (iri mammal) ''Cat''
   \<and> \<not> endswith (iri dog) ''Cat''
   \<and> fst (fetch_superclasses animals ''Cat'' serving) = Inl (ValueError ''Cat'' ''animals'')"
  using fetch_superclasses_suffix_matching [of animals "''Dog''" serving]
    fetch_superclasses_suffix_matching [of animals "''Cat''" serving]
  by (auto simp: animals_def animal_def mammal_def dog_def endswith_def suffix_def)

text \<open>
  Claim C2. For a loaded ontology, \<^verbatim>\<open>fetch_superclasses\<close> fails if and only if no entity
  of that ontology has an identifier that ends with the class name; the failure is the
  not-found error, and the route answers it with status 404, while a match gives a list
  of labels.
\<close>

theorem fetch_superclasses_not_found:
  assumes "map_of (loaded_ontologies s) ontology_name = Some ontology"
  shows "(isl (fst (fetch_superclasses ontology class_name s))
            \<longleftrightarrow> (\<forall>e\<in>set (entities ontology). \<not> endswith (iri e) class_name))
    \<and> ((\<forall>e\<in>set (entities ontology). \<not> endswith (iri e) class_name) \<longrightarrow>
          fst (fetch_superclasses ontology class_name s)
            = Inl (ValueError class_name (onto_name ontology))
          \<and> fst (get_superclasses_route ontology_name class_name s) = HTTPException 404)
    \<and> ((\<exists>e\<in>set (entities ontology). endswith (iri e) class_name) \<longrightarrow>
          (\<exists>labels. fst (get_superclasses_route ontology_name class_name s)
             = Superclasses labels))"
proof (cases "search_one ontology (CHR ''*'' # class_name)")
  case None
  then have "\<forall>e\<in>set (entities ontology). \<not> endswith (iri e) class_name"
    by (simp add: search_suffix_None)
  with None assms show ?thesis
    by (simp add: get_superclasses_route_def fetch_superclasses_def Let_def)
next
  case (Some cls)
  then have "\<exists>e\<in>set (entities ontology). endswith (iri e) class_name"
    using search_suffix_Some by blast
  with Some assms show ?thesis
    by (simp add: get_superclasses_route_def fetch_superclasses_def Let_def)
qed

theorem fetch_superclasses_not_found_witness:
  "map_of (loaded_ontologies serving) ''animals'' = Some animals
   \<and> \<not> endswith (iri animal) ''Cat'' \<and> \<not> endswith (iri mammal) ''Cat''
   \<and> \<not> endswith (iri dog) ''Cat''
   \<and> isl (fst (fetch_superclasses animals ''Cat'' serving))
   \<and> fst (get_superclasses_route ''animals'' ''Cat'' serving) = HTTPException 404
   \<and> endswith (iri dog) ''Dog''
   \<and> \<not> isl (fst (fetch_superclasses animals ''Dog'' serving))
   \<and> fst (get_superclasses_route ''animals'' ''Dog'' serving)
       = Superclasses [''Dog'', ''Mammal'', ''Animal_003'']"
  using fetch_superclasses_not_found [of serving "''animals''" animals "''Cat''"]
    fetch_superclasses_not_found [of serving "''animals''" animals "''Dog''"]
  by (auto simp: serving_def initial_state_def animals_def animal_def mammal_def dog_def
      endswith_def suffix_def get_superclasses_route_def fetch_superclasses_def Let_def
      search_one_def iri_matches_def resolve_label_def get_labels_def)

section \<open>Ancestors\<close>

lemma ancestors_self: "e \<in> set (ancestors e)"
  by (cases e) simp

lemma ancestors_parent: "p \<in> set (is_a c) \<Longrightarrow> set (ancestors p) \<subseteq> set (ancestors c)"
  by (cases c) auto

lemma asserted_ancestor_in_ancestors: "asserted_ancestor c a \<Longrightarrow> a \<in> set (ancestors c)"
proof (induction rule: asserted_ancestor.induct)
  case (parent p c)
  then show ?case using ancestors_parent ancestors_self by blast
next
  case (step p c a)
  then show ?case using ancestors_parent by blast
qed

lemma set_ancestors:
  "set (ancestors (Entity i n l ps)) = insert (Entity i n l ps) (\<Union>p\<in>set ps. set (ancestors p))"
  by (simp del: remdups.simps)

text \<open>Nothing else is in the set: a member is the class or one of its asserted ancestors.\<close>

lemma ancestors_only: "a \<in> set (ancestors c) \<Longrightarrow> a = c \<or> asserted_ancestor c a"
proof (induction c rule: ancestors.induct)
  case (1 i n l ps)
  show ?case
  proof (cases "a = Entity i n l ps")
    case True
    then show ?thesis by simp
  next
    case False
    with "1.prems" obtain p where p: "p \<in> set ps" "a \<in> set (ancestors p)"
      unfolding set_ancestors by blast
    with "1.IH" have "a = p \<or> asserted_ancestor p a" by blast
    with p(1) show ?thesis
      by (auto intro: asserted_ancestor.intros)
  qed
qed

text \<open>
  Claim C3. For every ontology and every class name that matches one of its entities
  (the identifier of the entity ends with the class name), \<^verbatim>\<open>fetch_superclasses\<close>
  succeeds, and the set it returns contains the matched class itself and every asserted
  ancestor of that class.
\<close>

theorem fetch_superclasses_reflexive_ancestors:
  assumes "\<exists>e\<in>set (entities ontology). endswith (iri e) class_name"
  shows "\<exists>cls\<in>set (entities ontology). endswith (iri cls) class_name
     \<and> (\<exists>res. fst (fetch_superclasses ontology class_name s) = Inr res
          \<and> cls \<in> set res \<and> (\<forall>a. asserted_ancestor cls a \<longrightarrow> a \<in> set res))"
proof (cases "search_one ontology (CHR ''*'' # class_name)")
  case None
  with assms show ?thesis by (simp add: search_suffix_None)
next
  case (Some cls)
  from search_suffix_Some [OF Some]
  have "cls \<in> set (entities ontology)" "endswith (iri cls) class_name"
    by simp_all
  moreover have "fst (fetch_superclasses ontology class_name s) = Inr (ancestors cls)"
    using Some by (simp add: fetch_result)
  ultimately show ?thesis
    using ancestors_self asserted_ancestor_in_ancestors by blast
qed

theorem fetch_superclasses_reflexive_ancestors_witness:
  "dog \<in> set (entities animals) \<and> endswith (iri dog) ''Dog''
   \<and> fst (fetch_superclasses animals ''Dog'' serving) = Inr [dog, mammal, animal]"
  using fetch_superclasses_reflexive_ancestors [of animals "''Dog''" serving]
  by (simp add: animals_def animal_def mammal_def dog_def fetch_result search_one_def
      iri_matches_def endswith_def suffix_def)

section \<open>The query route\<close>

text \<open>
  Claim C6. A request that names an ontology which is not a key of the store is answered
  with status 404 and leaves the state as it was. Every call of \<^verbatim>\<open>fetch_superclasses\<close>
  adds its debug record to the log, so an unchanged state shows that no search ran.
\<close>

theorem unknown_ontology_rejected:
  "(ontology_name \<notin> fst ` set (loaded_ontologies s) \<longrightarrow>
      get_superclasses_route ontology_name class_name s = (HTTPException 404, s))
   \<and> log (snd (fetch_superclasses ontology class_name s))
       = log s @ [(DEBUG, Fetching class_name (onto_name ontology))]"
proof -
  have "get_superclasses_route ontology_name class_name s = (HTTPException 404, s)"
    if "ontology_name \<notin> fst ` set (loaded_ontologies s)"
  proof -
    from that have "map_of (loaded_ontologies s) ontology_name = None"
      by (simp add: map_of_eq_None_iff)
    then show ?thesis by (simp add: get_superclasses_route_def)
  qed
  then show ?thesis by (simp add: fetch_state logger_def)
qed

theorem unknown_ontology_rejected_witness:
  "''plants'' \<notin> fst ` set (loaded_ontologies serving)
   \<and> get_superclasses_route ''plants'' ''Dog'' serving = (HTTPException 404, serving)"
  using unknown_ontology_rejected [of "''plants''" serving "''Dog''" animals]
  by (simp add: serving_def initial_state_def)

lemma fetch_store:
  "loaded_ontologies (snd (fetch_superclasses ontology class_name s)) = loaded_ontologies s"
  by (simp add: fetch_state logger_def)

lemma route_store:
  "loaded_ontologies (snd (get_superclasses_route ontology_name class_name s)) = loaded_ontologies s"
  by (simp add: get_superclasses_route_def fetch_superclasses_def Let_def logger_def
      split: option.split sum.split py_error.split)

lemma available_store: "snd (get_available_ontologies s) = s"
  by (simp add: get_available_ontologies_def)

lemma run_query_store: "loaded_ontologies (snd (run_query q s)) = loaded_ontologies s"
  by (cases q) (simp_all add: split_beta fetch_store route_store available_store)

lemma run_queries_store: "loaded_ontologies (snd (run_queries qs s)) = loaded_ontologies s"
proof (induction qs arbitrary: s)
  case Nil
  show ?case by simp
next
  case (Cons q qs)
  have "snd (run_queries (q # qs) s) = snd (run_queries qs (snd (run_query q s)))"
    by (simp add: split_beta)
  then show ?case by (simp add: Cons.IH run_query_store)
qed

text \<open>
  Claim C9. No query changes the store: after a call of \<^verbatim>\<open>fetch_superclasses\<close>, after a
  request to either query route, and after any sequence of them, the dictionary of loaded
  ontologies (its keys and the model under each key) is what it was before.
\<close>

theorem queries_preserve_store:
  "loaded_ontologies (snd (run_queries qs s)) = loaded_ontologies s
   \<and> loaded_ontologies (snd (fetch_superclasses ontology class_name s)) = loaded_ontologies s
   \<and> loaded_ontologies (snd (get_superclasses_route ontology_name class_name s))
       = loaded_ontologies s
   \<and> loaded_ontologies (snd (get_available_ontologies s)) = loaded_ontologies s"
  by (simp add: run_queries_store fetch_store route_store available_store)

section \<open>Loading the directory\<close>

lemma load_entry_store:
  "loaded_ontologies (load_entry ent s) =
     (if endswith (fst ent) ''.owl'' \<and> \<not> isl (snd ent)
      then AList.update (derived_name ent) (projr (snd ent)) (loaded_ontologies s)
      else loaded_ontologies s)"
  by (cases "snd ent") (simp_all add: load_entry_def Let_def logger_def derived_name_def)







lemma load_entry_calls: "reasoner_calls (load_entry ent s) = reasoner_calls s"
  by (cases "snd ent") (simp_all add: load_entry_def Let_def logger_def)

lemma load_entries_calls: "reasoner_calls (load_entries ents s) = reasoner_calls s"
  by (induction ents arbitrary: s) (simp_all add: load_entry_calls)





section \<open>A missing directory\<close>

lemma parents_from_shorter:
  "q \<in> set (parents_from acc cs) \<Longrightarrow> length q < length acc + length cs"
proof (induction cs arbitrary: acc)
  case Nil
  then show ?case by simp
next
  case (Cons c cs)
  from Cons.prems have "q = acc \<or> q \<in> set (parents_from (acc @ [c]) cs)"
    by (auto split: if_splits)
  then show ?case
  proof
    assume "q = acc"
    then show ?thesis by simp
  next
    assume "q \<in> set (parents_from (acc @ [c]) cs)"
    from Cons.IH [OF this] show ?thesis by simp
  qed
qed

lemma parents_proper: "p \<notin> set (parents p)"
  using parents_from_shorter [of p "[]" p] by (auto simp: parents_def)

lemma mkdir_chain_last:
  "mkdir_chain fs xs = Inr fs1 \<Longrightarrow> xs \<noteq> [] \<Longrightarrow> fs1 (last xs) = Some (Dir [])"
  by (induction fs xs rule: mkdir_chain.induct) (auto split: option.splits node.splits)

lemma mkdir_chain_succeeds:
  "\<forall>q\<in>set ps. fs q = None \<or> (\<exists>ents. fs q = Some (Dir ents)) \<Longrightarrow> fs p = None \<Longrightarrow>
   p \<notin> set ps \<Longrightarrow> \<not> isl (mkdir_chain fs (ps @ [p]))"
proof (induction ps arbitrary: fs)
  case Nil
  then show ?case by simp
next
  case (Cons q ps)
  obtain r rs where r: "ps @ [p] = r # rs"
    by (cases ps) auto
  from Cons.prems have q: "fs q = None \<or> (\<exists>ents. fs q = Some (Dir ents))"
    and rest: "\<forall>x\<in>set ps. fs x = None \<or> (\<exists>ents. fs x = Some (Dir ents))"
    and p: "fs p = None" "p \<noteq> q" "p \<notin> set ps"
    by auto
  from q show ?case
  proof
    assume n: "fs q = None"
    have "\<forall>x\<in>set ps. (fs(q \<mapsto> Dir [])) x = None \<or> (\<exists>ents. (fs(q \<mapsto> Dir [])) x = Some (Dir ents))"
      using rest by auto
    moreover have "(fs(q \<mapsto> Dir [])) p = None"
      using p by simp
    ultimately have "\<not> isl (mkdir_chain (fs(q \<mapsto> Dir [])) (ps @ [p]))"
      using Cons.IH p(3) by blast
    with n r show ?thesis by simp
  next
    assume "\<exists>ents. fs q = Some (Dir ents)"
    then obtain ents where d: "fs q = Some (Dir ents)" ..
    have "\<not> isl (mkdir_chain fs (ps @ [p]))"
      using Cons.IH [OF rest p(1) p(3)] .
    with d r show ?thesis by simp
  qed
qed

lemma os_makedirs_creates:
  "os_makedirs fs directory = Inr fs1 \<Longrightarrow> fs1 directory = Some (Dir [])"
  using mkdir_chain_last [of fs "parents directory @ [directory]" fs1]
  by (simp add: os_makedirs_def split: if_splits)

lemma os_makedirs_succeeds:
  "directory \<noteq> [] \<Longrightarrow> fs directory = None \<Longrightarrow>
   \<forall>q\<in>set (parents directory). fs q = None \<or> (\<exists>ents. fs q = Some (Dir ents)) \<Longrightarrow>
   \<not> isl (os_makedirs fs directory)"
  using mkdir_chain_succeeds [of "parents directory" fs directory]
  by (simp add: os_makedirs_def parents_proper)

text \<open>
  Claim C5, amended. For every path that does not exist, the loader does what
  \<^verbatim>\<open>os.makedirs\<close> does at that path. Where \<^verbatim>\<open>os.makedirs\<close> succeeds, the loader does not
  raise: an empty directory is at the path afterwards, a warning and a hint are logged,
  and the store is left as it was, which at startup is the empty store. Where
  \<^verbatim>\<open>os.makedirs\<close> raises, the loader raises the same error. \<^verbatim>\<open>os.makedirs\<close> succeeds at
  every non-empty path at which there is nothing and above which every path is a
  directory or missing.
\<close>

theorem load_all_missing_directory:
  assumes "\<not> os_path_exists fs directory"
  shows "(\<forall>fs1. os_makedirs fs directory = Inr fs1 \<longrightarrow>
            (\<exists>s'. load_ontologies_from_directory directory (fs, s) = Inr (fs1, s')
               \<and> fs1 directory = Some (Dir [])
               \<and> loaded_ontologies s' = loaded_ontologies s
               \<and> log s' = log s @ [(WARNING, DirNotFound directory), (INFO, PleaseAdd directory)]))
     \<and> (\<forall>e. os_makedirs fs directory = Inl e \<longrightarrow>
            load_ontologies_from_directory directory (fs, s) = Inl e)
     \<and> (directory \<noteq> [] \<and> fs directory = None
          \<and> (\<forall>q\<in>set (parents directory). fs q = None \<or> (\<exists>ents. fs q = Some (Dir ents))) \<longrightarrow>
        \<not> isl (os_makedirs fs directory))"
proof -
  have made: "\<exists>s'. load_ontologies_from_directory directory (fs, s) = Inr (fs1, s')
      \<and> fs1 directory = Some (Dir [])
      \<and> loaded_ontologies s' = loaded_ontologies s
      \<and> log s' = log s @ [(WARNING, DirNotFound directory), (INFO, PleaseAdd directory)]"
    if "os_makedirs fs directory = Inr fs1" for fs1
    using assms that os_makedirs_creates [OF that]
    by (simp add: load_ontologies_from_directory_def logger_def)
  have raised: "load_ontologies_from_directory directory (fs, s) = Inl e"
    if "os_makedirs fs directory = Inl e" for e
    using assms that by (simp add: load_ontologies_from_directory_def)
  from made raised os_makedirs_succeeds show ?thesis by blast
qed

theorem load_all_missing_directory_witness:
  "\<not> os_path_exists Map.empty ''ontologies''
   \<and> \<not> isl (os_makedirs Map.empty ''ontologies'')
   \<and> \<not> isl (load_ontologies_from_directory ''ontologies'' (Map.empty, initial_state))
   \<and> fst (projr (load_ontologies_from_directory ''ontologies'' (Map.empty, initial_state)))
        ''ontologies'' = Some (Dir [])
   \<and> loaded_ontologies (snd (projr
        (load_ontologies_from_directory ''ontologies'' (Map.empty, initial_state)))) = []
   \<and> \<not> os_path_exists [''ontologies'' \<mapsto> Dangling_link] ''ontologies''
   \<and> load_ontologies_from_directory ''ontologies''
        ([''ontologies'' \<mapsto> Dangling_link], initial_state)
       = Inl (FileExistsError ''ontologies'')"
  using load_all_missing_directory [of Map.empty "''ontologies''" initial_state]
    load_all_missing_directory [of "[''ontologies'' \<mapsto> Dangling_link]" "''ontologies''"
      initial_state]
  by (auto simp: os_path_exists_def os_makedirs_def parents_def initial_state_def)

text \<open>
  The claim as it stands fails for the path \<^verbatim>\<open>data/ontologies\<close> where \<^verbatim>\<open>data\<close> is a
  regular file: the path does not exist, \<^verbatim>\<open>os.makedirs\<close> raises, and so does the loader.
\<close>

theorem load_all_below_file_counterexample:
  "\<not> os_path_exists data_file_fs ''data/ontologies''
   \<and> load_ontologies_from_directory ''data/ontologies'' (data_file_fs, initial_state)
       = Inl (NotADirectoryError ''data/ontologies'')"
  by (simp add: data_file_fs_def os_path_exists_def load_ontologies_from_directory_def
      os_makedirs_def parents_def)

section \<open>Startup and the reasoner\<close>

lemma load_calls:
  "load_ontologies_from_directory directory (fs, s) = Inr (fs1, s1) \<Longrightarrow>
   reasoner_calls s1 = reasoner_calls s"
  by (auto simp: load_ontologies_from_directory_def logger_def load_entries_calls
      split: if_splits sum.splits)

lemma route_depends_on_store:
  "loaded_ontologies s = loaded_ontologies t \<Longrightarrow>
   fst (get_superclasses_route ontology_name class_name s)
     = fst (get_superclasses_route ontology_name class_name t)"
  by (simp add: get_superclasses_route_def fetch_superclasses_def Let_def
      split: option.split sum.split py_error.split)

lemma fetch_calls:
  "reasoner_calls (snd (fetch_superclasses ontology class_name s)) = reasoner_calls s"
  by (simp add: fetch_state logger_def)

lemma route_calls:
  "reasoner_calls (snd (get_superclasses_route ontology_name class_name s)) = reasoner_calls s"
  by (simp add: get_superclasses_route_def fetch_superclasses_def Let_def logger_def
      split: option.split sum.split py_error.split)

lemma run_query_calls: "reasoner_calls (snd (run_query q s)) = reasoner_calls s"
  by (cases q) (simp_all add: split_beta fetch_calls route_calls available_store)

lemma run_queries_calls: "reasoner_calls (snd (run_queries qs s)) = reasoner_calls s"
proof (induction qs arbitrary: s)
  case Nil
  show ?case by simp
next
  case (Cons q qs)
  have "snd (run_queries (q # qs) s) = snd (run_queries qs (snd (run_query q s)))"
    by (simp add: split_beta)
  then show ?case by (simp add: Cons.IH run_query_calls)
qed

lemma run_reasoner_calls:
  "reasoner_calls (run_reasoner r s) =
     reasoner_calls s + (if loaded_ontologies s = [] then 0 else 1)"
  by (simp add: run_reasoner_def Let_def print_def logger_def split: sum.split)

lemma run_reasoner_keys:
  "map fst (loaded_ontologies (run_reasoner r s)) = map fst (loaded_ontologies s)"
  by (simp add: run_reasoner_def Let_def print_def logger_def split_beta comp_def split: sum.split)

lemma run_reasoner_failed:
  "loaded_ontologies s \<noteq> [] \<Longrightarrow> r (map snd (loaded_ontologies s)) = Inl e \<Longrightarrow>
   loaded_ontologies (run_reasoner r s) = loaded_ontologies s
   \<and> log (run_reasoner r s) = log s @ [(ERROR, ReasoningFailed e), (WARNING, ContinueAsserted)]"
  by (simp add: run_reasoner_def Let_def print_def logger_def)

lemma run_reasoner_succeeded:
  "loaded_ontologies s \<noteq> [] \<Longrightarrow> r (map snd (loaded_ontologies s)) = Inr f \<Longrightarrow>
   loaded_ontologies (run_reasoner r s) = map (\<lambda>(k, v). (k, f v)) (loaded_ontologies s)"
  by (simp add: run_reasoner_def Let_def print_def logger_def)

lemma sample_load:
  "load_ontologies_from_directory ONTOLOGY_DIR
     (sample_fs, print ''--- Starting up Ontology Service ---'' initial_state)
   = Inr (sample_fs,
       load_entries sample_dir (logger INFO (Scanning ONTOLOGY_DIR)
         (print ''--- Starting up Ontology Service ---'' initial_state)))"
  by (simp add: load_ontologies_from_directory_def os_path_exists_def os_listdir_def
      sample_fs_def)

lemma sample_store:
  "loaded_ontologies (load_entries sample_dir (logger INFO (Scanning ONTOLOGY_DIR)
         (print ''--- Starting up Ontology Service ---'' initial_state)))
   = [(''animals'', animals)]"
  by (simp add: sample_dir_def load_entry_store endswith_def suffix_def derived_name_def
      splitext_def logger_def print_def initial_state_def)

text \<open>
  Claim C8. Whenever loading does not raise, startup does not raise either, whatever the
  reasoner does. Startup calls the reasoner once when the store is non-empty and not at
  all when it is empty, and no query calls it again. When the reasoner succeeds, every
  model of the store is replaced by what the reasoner makes of it. When the reasoner
  fails, the failure is logged as an error followed by a warning, the store keeps the
  models as they were loaded, and every request gets the answer it would get on those
  models.
\<close>

theorem reasoning_once_and_degraded:
  assumes "load_ontologies_from_directory ONTOLOGY_DIR
             (fs, print ''--- Starting up Ontology Service ---'' s) = Inr (fs1, s1)"
  shows "\<exists>s'. lifespan_startup sync_reasoner (fs, s) = Inr (fs1, s')
     \<and> reasoner_calls s' = reasoner_calls s + (if loaded_ontologies s1 = [] then 0 else 1)
     \<and> map fst (loaded_ontologies s') = map fst (loaded_ontologies s1)
     \<and> (\<forall>f. loaded_ontologies s1 \<noteq> []
              \<and> sync_reasoner (map snd (loaded_ontologies s1)) = Inr f \<longrightarrow>
            loaded_ontologies s' = map (\<lambda>(k, v). (k, f v)) (loaded_ontologies s1))
     \<and> (\<forall>e. loaded_ontologies s1 \<noteq> []
              \<and> sync_reasoner (map snd (loaded_ontologies s1)) = Inl e \<longrightarrow>
            loaded_ontologies s' = loaded_ontologies s1
          \<and> log s' = log s1 @ [(ERROR, ReasoningFailed e), (WARNING, ContinueAsserted)]
          \<and> (\<forall>ontology_name class_name.
                fst (get_superclasses_route ontology_name class_name s')
                  = fst (get_superclasses_route ontology_name class_name s1)))
     \<and> (\<forall>qs. reasoner_calls (snd (run_queries qs s')) = reasoner_calls s')"
proof -
  define s' where "s' = run_reasoner sync_reasoner s1"
  have run: "lifespan_startup sync_reasoner (fs, s) = Inr (fs1, s')"
    using assms by (simp add: lifespan_startup_def s'_def)
  have "reasoner_calls s1 = reasoner_calls s"
    using load_calls [OF assms] by (simp add: print_def)
  then have calls:
    "reasoner_calls s' = reasoner_calls s + (if loaded_ontologies s1 = [] then 0 else 1)"
    by (simp add: s'_def run_reasoner_calls)
  have keys: "map fst (loaded_ontologies s') = map fst (loaded_ontologies s1)"
    by (simp add: s'_def run_reasoner_keys)
  have inferred: "loaded_ontologies s' = map (\<lambda>(k, v). (k, f v)) (loaded_ontologies s1)"
    if "loaded_ontologies s1 \<noteq> []" "sync_reasoner (map snd (loaded_ontologies s1)) = Inr f" for f
    using run_reasoner_succeeded [of s1 sync_reasoner f] that by (simp add: s'_def)
  have degraded: "loaded_ontologies s' = loaded_ontologies s1
      \<and> log s' = log s1 @ [(ERROR, ReasoningFailed e), (WARNING, ContinueAsserted)]
      \<and> (\<forall>ontology_name class_name.
            fst (get_superclasses_route ontology_name class_name s')
              = fst (get_superclasses_route ontology_name class_name s1))"
    if "loaded_ontologies s1 \<noteq> []" "sync_reasoner (map snd (loaded_ontologies s1)) = Inl e" for e
    using run_reasoner_failed [of s1 sync_reasoner e] that route_depends_on_store [of s' s1]
    by (simp add: s'_def)
  from run calls keys inferred degraded run_queries_calls show ?thesis by blast
qed

theorem reasoning_once_and_degraded_witness:
  "\<not> isl (lifespan_startup no_java (sample_fs, initial_state))
   \<and> reasoner_calls (snd (projr (lifespan_startup no_java (sample_fs, initial_state)))) = 1
   \<and> loaded_ontologies (snd (projr (lifespan_startup no_java (sample_fs, initial_state))))
       = [(''animals'', animals)]
   \<and> fst (get_superclasses_route ''animals'' ''Dog''
        (snd (projr (lifespan_startup no_java (sample_fs, initial_state)))))
       = Superclasses [''Dog'', ''Mammal'', ''Animal_003'']
   \<and> \<not> isl (lifespan_startup adds_thing (sample_fs, initial_state))
   \<and> loaded_ontologies (snd (projr (lifespan_startup adds_thing (sample_fs, initial_state))))
       = [(''animals'', animals\<lparr>entities := entities animals @ [thing]\<rparr>)]"
proof -
  let ?s1 = "load_entries sample_dir (logger INFO (Scanning ONTOLOGY_DIR)
         (print ''--- Starting up Ontology Service ---'' initial_state))"
  from reasoning_once_and_degraded [OF sample_load, of no_java] obtain s' where
    run: "lifespan_startup no_java (sample_fs, initial_state) = Inr (sample_fs, s')"
    and calls: "reasoner_calls s' = reasoner_calls initial_state
                  + (if loaded_ontologies ?s1 = [] then 0 else 1)"
    and degraded: "\<forall>e. loaded_ontologies ?s1 \<noteq> []
              \<and> no_java (map snd (loaded_ontologies ?s1)) = Inl e \<longrightarrow>
            loaded_ontologies s' = loaded_ontologies ?s1
          \<and> log s' = log ?s1 @ [(ERROR, ReasoningFailed e), (WARNING, ContinueAsserted)]
          \<and> (\<forall>ontology_name class_name.
                fst (get_superclasses_route ontology_name class_name s')
                  = fst (get_superclasses_route ontology_name class_name ?s1))"
    by blast
  from reasoning_once_and_degraded [OF sample_load, of adds_thing] obtain t' where
    run2: "lifespan_startup adds_thing (sample_fs, initial_state) = Inr (sample_fs, t')"
    and inferred: "\<forall>f. loaded_ontologies ?s1 \<noteq> []
              \<and> adds_thing (map snd (loaded_ontologies ?s1)) = Inr f \<longrightarrow>
            loaded_ontologies t' = map (\<lambda>(k, v). (k, f v)) (loaded_ontologies ?s1)"
    by blast
  have st: "loaded_ontologies s' = [(''animals'', animals)]"
    using degraded by (simp add: sample_store no_java_def)
  have st2: "loaded_ontologies t'
      = [(''animals'', animals\<lparr>entities := entities animals @ [thing]\<rparr>)]"
    using inferred by (simp add: sample_store adds_thing_def)
  have "reasoner_calls initial_state = 0"
    by (simp add: initial_state_def)
  with calls have n: "reasoner_calls s' = 1"
    by (simp add: sample_store)
  have route: "fst (get_superclasses_route ''animals'' ''Dog'' s')
      = Superclasses [''Dog'', ''Mammal'', ''Animal_003'']"
    by (simp add: get_superclasses_route_def st fetch_superclasses_def Let_def search_one_def
        iri_matches_def endswith_def suffix_def
        animals_def animal_def mammal_def dog_def resolve_label_def get_labels_def)
  from run st n route run2 st2 show ?thesis by simp
qed

end
